theory Spec2Isabelle
  imports Complex_Main "HOL-Library.Sublist"
begin

section \<open>JavaScript strings\<close>

text \<open>
  A JavaScript string is a sequence of code units. The model keeps the units below 256
  (the ISO-8859-1 range), one \<^typ>\<open>char\<close> each; every literal of the program and every
  input named by the specification is ASCII. \<open>null\<close> and \<open>undefined\<close> are \<open>None\<close>.
\<close>

definition upper_units :: "char list" where
  "upper_units = ''ABCDEFGHIJKLMNOPQRSTUVWXYZ'' @
     [CHR 0xC0, CHR 0xC1, CHR 0xC2, CHR 0xC3, CHR 0xC4, CHR 0xC5, CHR 0xC6, CHR 0xC7,
      CHR 0xC8, CHR 0xC9, CHR 0xCA, CHR 0xCB, CHR 0xCC, CHR 0xCD, CHR 0xCE, CHR 0xCF,
      CHR 0xD0, CHR 0xD1, CHR 0xD2, CHR 0xD3, CHR 0xD4, CHR 0xD5, CHR 0xD6,
      CHR 0xD8, CHR 0xD9, CHR 0xDA, CHR 0xDB, CHR 0xDC, CHR 0xDD, CHR 0xDE]"

definition lower_units :: "char list" where
  "lower_units = ''abcdefghijklmnopqrstuvwxyz'' @
     [CHR 0xE0, CHR 0xE1, CHR 0xE2, CHR 0xE3, CHR 0xE4, CHR 0xE5, CHR 0xE6, CHR 0xE7,
      CHR 0xE8, CHR 0xE9, CHR 0xEA, CHR 0xEB, CHR 0xEC, CHR 0xED, CHR 0xEE, CHR 0xEF,
      CHR 0xF0, CHR 0xF1, CHR 0xF2, CHR 0xF3, CHR 0xF4, CHR 0xF5, CHR 0xF6,
      CHR 0xF8, CHR 0xF9, CHR 0xFA, CHR 0xFB, CHR 0xFC, CHR 0xFD, CHR 0xFE]"

definition toLowerCase_ch :: "char \<Rightarrow> char" where
  "toLowerCase_ch c =
     (case map_of (zip upper_units lower_units) c of Some d \<Rightarrow> d | None \<Rightarrow> c)"

text \<open>\<open>String.prototype.toLowerCase\<close>, unit by unit.\<close>

definition toLowerCase :: "string \<Rightarrow> string" where
  "toLowerCase s = map toLowerCase_ch s"

definition toUpperCase_ch :: "char \<Rightarrow> char" where
  "toUpperCase_ch c =
     (case map_of (zip lower_units upper_units) c of Some d \<Rightarrow> d | None \<Rightarrow> c)"

text \<open>
  \<open>String.prototype.toUpperCase\<close>. The program applies it to its own ASCII header
  aliases only; the three units of the range whose upper case lies outside it
  (0xB5, 0xDF, 0xFF) are left as they are.
\<close>

definition toUpperCase :: "string \<Rightarrow> string" where
  "toUpperCase s = map toUpperCase_ch s"

text \<open>The units matched by \<open>\s\<close> and removed by \<open>trim\<close>: TAB, LF, VT, FF, CR, SP, NBSP.\<close>

definition white_units :: "char list" where
  "white_units = [CHR 0x09, CHR 0x0A, CHR 0x0B, CHR 0x0C, CHR 0x0D, CHR '' '', CHR 0xA0]"

definition is_space :: "char \<Rightarrow> bool" where
  "is_space c = (c \<in> set white_units)"

definition trim :: "string \<Rightarrow> string" where
  "trim s = rev (dropWhile is_space (rev (dropWhile is_space s)))"

definition is_digit :: "char \<Rightarrow> bool" where
  "is_digit c = (c \<in> set ''0123456789'')"

text \<open>
  \<open>/k/.test(t)\<close> for a pattern \<open>k\<close> without metacharacters: \<open>k\<close> occurs somewhere in
  \<open>t\<close>. \<open>/k1|k2|.../.test(t)\<close> is \<open>re_alt\<close>.
\<close>

fun re_test :: "string \<Rightarrow> string \<Rightarrow> bool" where
  "re_test [] k = (k = [])"
| "re_test (c # cs) k = (prefix k (c # cs) \<or> re_test cs k)"

definition re_alt :: "string \<Rightarrow> string list \<Rightarrow> bool" where
  "re_alt t ks = list_ex (re_test t) ks"

section \<open>Taxonomy classifiers\<close>

text \<open>
  \<open>inferSectors\<close>, \<open>classifyType\<close> and \<open>classifyCategory\<close> of
  \<open>scripts/idb_export_to_json.mjs\<close> (v7). The \<open>_v6\<close> functions are those of the earlier
  generation of the same script, which end in \<open>return "Other"\<close> where v7 ends in
  \<open>return s || "Other"\<close>.
\<close>

definition inferSectors :: "string \<Rightarrow> string list" where
  "inferSectors title =
     (let t = toLowerCase title
      in if re_alt t [''energy'', ''power'', ''electric''] then [''Energy'']
         else if re_alt t [''road'', ''rail'', ''transport''] then [''Transport'']
         else if re_alt t [''water'', ''waste''] then [''Water'']
         else if re_alt t [''ict'', ''digital''] then [''ICT'']
         else [''Other''])"

definition classifyType :: "string \<Rightarrow> string" where
  "classifyType s =
     (let t = toLowerCase s
      in if re_alt t [''expression of interest'', ''reoi''] then ''REOI''
         else if re_alt t [''invitation to bid'', ''rfb'', ''itb''] then ''RFB/ITB''
         else if re_alt t [''request for proposals'', ''rfp''] then ''RFP''
         else if re_alt t [''general procurement notice'', ''gpn''] then ''GPN''
         else if re_alt t [''award''] then ''Award''
         else if s \<noteq> [] then s else ''Other'')"

definition classifyCategory :: "string \<Rightarrow> string" where
  "classifyCategory s =
     (let t = toLowerCase s
      in if re_alt t [''works''] then ''Works''
         else if re_alt t [''goods'', ''supply''] then ''Goods''
         else if re_alt t [''consult''] then ''Consulting''
         else if s \<noteq> [] then s else ''Other'')"

definition classifyType_v6 :: "string \<Rightarrow> string" where
  "classifyType_v6 s =
     (let t = toLowerCase s
      in if re_alt t [''expression of interest'', ''reoi''] then ''REOI''
         else if re_alt t [''invitation to bid'', ''rfb'', ''itb''] then ''RFB/ITB''
         else if re_alt t [''request for proposals'', ''rfp''] then ''RFP''
         else if re_alt t [''general procurement notice'', ''gpn''] then ''GPN''
         else if re_alt t [''award''] then ''Award''
         else ''Other'')"

definition classifyCategory_v6 :: "string \<Rightarrow> string" where
  "classifyCategory_v6 s =
     (let t = toLowerCase s
      in if re_alt t [''works''] then ''Works''
         else if re_alt t [''goods'', ''supply''] then ''Goods''
         else if re_alt t [''consult''] then ''Consulting''
         else ''Other'')"

text \<open>
  The words of the specification for the refinement between the generations: an input
  "matches a classification keyword" when its lower-cased text contains one of the
  keywords of the classifier, and the "classified enum" is the set of labels.
\<close>

definition type_keywords :: "string list" where
  "type_keywords =
     [''expression of interest'', ''reoi'', ''invitation to bid'', ''rfb'', ''itb'',
      ''request for proposals'', ''rfp'', ''general procurement notice'', ''gpn'', ''award'']"

definition category_keywords :: "string list" where
  "category_keywords = [''works'', ''goods'', ''supply'', ''consult'']"

definition type_keyword_hit :: "string \<Rightarrow> bool" where
  "type_keyword_hit s = re_alt (toLowerCase s) type_keywords"

definition category_keyword_hit :: "string \<Rightarrow> bool" where
  "category_keyword_hit s = re_alt (toLowerCase s) category_keywords"

definition type_enum :: "string list" where
  "type_enum = [''REOI'', ''RFB/ITB'', ''RFP'', ''GPN'', ''Award'']"

definition category_enum :: "string list" where
  "category_enum = [''Works'', ''Goods'', ''Consulting'']"

section \<open>Numbers and dates of the host\<close>

datatype js_error = RangeError string | Error string

text \<open>The value of a decimal digit.\<close>

definition digit_val :: "char \<Rightarrow> int" where
  "digit_val c =
     (case map_of (zip ''0123456789'' [0, 1, 2, 3, 4, 5, 6, 7, 8, 9]) c of
        Some v \<Rightarrow> v
      | None \<Rightarrow> 0)"

definition digits_val :: "string \<Rightarrow> int" where
  "digits_val ds = foldl (\<lambda>a c. 10 * a + digit_val c) 0 ds"

text \<open>
  \<open>parseInt(p, 10)\<close>: leading white space is skipped, one sign is read, then the longest
  run of decimal digits; no digit gives \<open>NaN\<close> (\<open>None\<close>). The value is kept as the exact
  integer: rounding to a double changes it only past \<open>2^53\<close>, far outside the years,
  months and days of any date.
\<close>

definition parseInt10 :: "string \<Rightarrow> int option" where
  "parseInt10 p =
     (let q = dropWhile is_space p;
          neg = (q \<noteq> [] \<and> hd q = CHR ''-'');
          r = (if q \<noteq> [] \<and> (hd q = CHR ''-'' \<or> hd q = CHR ''+'') then tl q else q);
          z = takeWhile is_digit r
      in if z = [] then None
         else Some (if neg then - digits_val z else digits_val z))"

text \<open>
  \<open>Number.isFinite\<close> of the Number nearest to an exact value: every value of magnitude
  below \<open>2^1024 - 2^970\<close> rounds to a finite double, every other one to an infinity.
\<close>

definition overflow_bound :: int where
  "overflow_bound = 2 ^ 1024 - 2 ^ 970"

definition isFinite_int :: "int \<Rightarrow> bool" where
  "isFinite_int n = (\<bar>n\<bar> < overflow_bound)"

text \<open>\<open>s.split(/[\/\s]/).filter(Boolean)\<close>: the non-empty fields between separators.\<close>

fun split_fields :: "(char \<Rightarrow> bool) \<Rightarrow> string \<Rightarrow> string \<Rightarrow> string list" where
  "split_fields sep cur [] = [rev cur]"
| "split_fields sep cur (c # cs) =
     (if sep c then rev cur # split_fields sep [] cs else split_fields sep (c # cur) cs)"

definition split_date :: "string \<Rightarrow> string list" where
  "split_date s =
     filter (\<lambda>p. p \<noteq> []) (split_fields (\<lambda>c. c = CHR ''/'' \<or> is_space c) [] s)"

text \<open>
  Day numbers of ECMA-262: \<open>DayFromYear\<close>, the leap year rule, and \<open>MakeDay\<close> for integral
  arguments, which carries months over into years and lets the day of the month run over
  the end of the month. One day is 86400000 ms; \<open>TimeClip\<close> keeps the time values of at
  most 8.64e15 ms in magnitude, everything else is \<open>NaN\<close> (\<open>None\<close>). Where ECMA-262 lets
  \<open>MakeDay\<close> itself give \<open>NaN\<close> for a month out of range, the numbers that \<open>toISO\<close>
  passes (none negative) give a day that \<open>TimeClip\<close> rejects as well.
\<close>

definition DayFromYear :: "int \<Rightarrow> int" where
  "DayFromYear y =
     365 * (y - 1970) + (y - 1969) div 4 - (y - 1901) div 100 + (y - 1601) div 400"

definition InLeapYear :: "int \<Rightarrow> bool" where
  "InLeapYear y = ((y mod 4 = 0 \<and> y mod 100 \<noteq> 0) \<or> y mod 400 = 0)"

definition month_start :: "int list" where
  "month_start = [0, 31, 59, 90, 120, 151, 181, 212, 243, 273, 304, 334]"

definition MakeDay :: "int \<Rightarrow> int \<Rightarrow> int \<Rightarrow> int" where
  "MakeDay year month date =
     (let ym = year + month div 12;
          mn = nat (month mod 12)
      in DayFromYear ym + month_start ! mn + (if InLeapYear ym \<and> 2 \<le> mn then 1 else 0)
         + date - 1)"

definition msPerDay :: int where
  "msPerDay = 86400000"

definition TimeClip :: "int \<Rightarrow> int option" where
  "TimeClip t = (if \<bar>t\<bar> > 8640000000000000 then None else Some t)"

text \<open>\<open>Date.UTC(y, m, d)\<close>: a year from 0 to 99 stands for 1900 + year.\<close>

definition Date_UTC :: "int \<Rightarrow> int \<Rightarrow> int \<Rightarrow> int option" where
  "Date_UTC y m d =
     (let yr = (if 0 \<le> y \<and> y \<le> 99 then 1900 + y else y)
      in TimeClip (MakeDay yr m d * msPerDay))"

text \<open>
  The calendar date of a day number (proleptic Gregorian calendar, days counted from
  1 January 1970), giving \<open>YearFromTime\<close>, \<open>MonthFromTime + 1\<close> and \<open>DateFromTime\<close>.
\<close>

definition civil_from_days :: "int \<Rightarrow> int \<times> int \<times> int" where
  "civil_from_days z0 =
     (let z = z0 + 719468;
          era = z div 146097;
          doe = z - era * 146097;
          yoe = (doe - doe div 1460 + doe div 36524 - doe div 146096) div 365;
          doy = doe - (365 * yoe + yoe div 4 - yoe div 100);
          mp = (5 * doy + 2) div 153;
          d = doy - (153 * mp + 2) div 5 + 1;
          m = (if mp < 10 then mp + 3 else mp - 9);
          y = yoe + era * 400
      in (if m \<le> 2 then y + 1 else y, m, d))"

definition digit_char :: "int \<Rightarrow> char" where
  "digit_char n = ''0123456789'' ! nat n"

function dec :: "int \<Rightarrow> string" where
  "dec n = (if n < 10 then [digit_char n] else dec (n div 10) @ [digit_char (n mod 10)])"
  by pat_completeness auto
termination
  by (relation "measure nat") auto

definition pad :: "nat \<Rightarrow> int \<Rightarrow> string" where
  "pad w n = (let ds = dec n in replicate (w - length ds) CHR ''0'' @ ds)"

definition iso_year :: "int \<Rightarrow> string" where
  "iso_year y =
     (if 0 \<le> y \<and> y \<le> 9999 then pad 4 y
      else (if y < 0 then ''-'' else ''+'') @ pad 6 \<bar>y\<bar>)"

text \<open>
  \<open>Date.prototype.toISOString\<close>: a \<open>RangeError\<close> on an invalid date, else
  \<open>YYYY-MM-DDTHH:mm:ss.sssZ\<close>, the year with a sign and six digits outside 0..9999.
\<close>

definition toISOString :: "int option \<Rightarrow> js_error + string" where
  "toISOString tv =
     (case tv of
        None \<Rightarrow> Inl (RangeError ''Invalid time value'')
      | Some t \<Rightarrow>
          (let (y, m, d) = civil_from_days (t div msPerDay);
               ms = t mod msPerDay
           in Inr (iso_year y @ ''-'' @ pad 2 m @ ''-'' @ pad 2 d @ ''T''
                   @ pad 2 (ms div 3600000) @ '':'' @ pad 2 (ms div 60000 mod 60) @ '':''
                   @ pad 2 (ms div 1000 mod 60) @ ''.'' @ pad 3 (ms mod 1000) @ ''Z'')))"

section \<open>The host\<close>

text \<open>
  What the script takes from its platform and does not define: the SHA-256 hex digest of
  \<open>node:crypto\<close>; the WHATWG \<open>URL\<close> parser, as the pair of \<open>pathname\<close> and
  \<open>searchParams.toString()\<close>, \<open>None\<close> where \<open>new URL\<close> throws; the host's parser of date
  strings behind \<open>new Date(s)\<close>, \<open>None\<close> for \<open>NaN\<close>; and the clock, as the text of
  \<open>new Date().toISOString()\<close> at the n-th reading.
\<close>

record host =
  sha256 :: "string \<Rightarrow> string"
  parseURL :: "string \<Rightarrow> (string \<times> string) option"
  parseDate :: "string \<Rightarrow> int option"
  nowISO :: "nat \<Rightarrow> string"

text \<open>\<open>new Date(s)\<close> for a string: the parsed time value, clipped.\<close>

definition new_Date :: "host \<Rightarrow> string \<Rightarrow> int option" where
  "new_Date P s = (case parseDate P s of None \<Rightarrow> None | Some t \<Rightarrow> TimeClip t)"

section \<open>Text normalizers\<close>

text \<open>\<open>dt.toISOString().slice(0,10)\<close>.\<close>

definition iso_slice :: "int option \<Rightarrow> js_error + string option" where
  "iso_slice dt = (case toISOString dt of Inl e \<Rightarrow> Inl e | Inr z \<Rightarrow> Inr (Some (take 10 z)))"

definition date_text :: "string \<Rightarrow> string" where
  "date_text raw =
     map (\<lambda>c. if c = CHR ''-'' then CHR ''/'' else c)
       (map (\<lambda>c. if c = CHR ''.'' then CHR ''/'' else c) (trim raw))"

definition date_nums :: "string \<Rightarrow> int list" where
  "date_nums s =
     List.map_filter
       (\<lambda>p. case parseInt10 p of
               None \<Rightarrow> None
             | Some n \<Rightarrow> if isFinite_int n then Some n else None)
       (split_date s)"

text \<open>The order of year, month and day that \<open>toISO\<close> reads from its first three numbers.\<close>

definition ymd :: "int \<Rightarrow> int \<Rightarrow> int \<Rightarrow> int \<times> int \<times> int" where
  "ymd n0 n1 n2 =
     (if n0 > 1900 \<and> n0 \<le> 2100 then (n0, n1, n2)
      else if n0 > 12 then (n2, n1, n0)
      else if n1 > 12 then (n2, n0, n1)
      else (n2, n1, n0))"

definition toISO :: "host \<Rightarrow> string option \<Rightarrow> js_error + string option" where
  "toISO P raw =
     (case raw of
        None \<Rightarrow> Inr None
      | Some r \<Rightarrow>
          if r = [] then Inr None
          else
            (let s = date_text r;
                 generic =
                   (let dt2 = new_Date P s
                    in if dt2 \<noteq> None then iso_slice dt2 else Inr None)
             in case date_nums s of
                  n0 # n1 # n2 # _ \<Rightarrow>
                    (let (y, m, d) = ymd n0 n1 n2;
                         dt = Date_UTC y (m - 1) d
                     in if dt \<noteq> None then iso_slice dt else generic)
                | _ \<Rightarrow> generic))"

text \<open>The time value of the structured reading of a date text, \<open>NaN\<close> without three numbers.\<close>

definition structured :: "string \<Rightarrow> int option" where
  "structured s =
     (case date_nums s of
        n0 # n1 # n2 # rest \<Rightarrow> (let (y, m, d) = ymd n0 n1 n2 in Date_UTC y (m - 1) d)
      | _ \<Rightarrow> None)"

text \<open>
  \<open>Number(z)\<close> for a string of decimal digits and dots, the only strings \<open>toNum\<close> passes:
  the empty string is 0; digits with at most one dot and at least one digit are the
  decimal they spell; anything else is \<open>NaN\<close> (\<open>None\<close>). The value is kept exact; the
  Number is the double nearest to it.
\<close>

definition Number_dec :: "string \<Rightarrow> rat option" where
  "Number_dec z =
     (let ip = takeWhile is_digit z; rest = dropWhile is_digit z
      in if z = [] then Some 0
         else if rest = [] then Some (of_int (digits_val ip))
         else if hd rest = CHR ''.'' \<and> list_all is_digit (tl rest) \<and> (ip \<noteq> [] \<or> tl rest \<noteq> [])
         then Some (of_int (digits_val (ip @ tl rest)) / 10 ^ length (tl rest))
         else None)"

definition toNum :: "string option \<Rightarrow> rat option" where
  "toNum v =
     (case v of
        None \<Rightarrow> None
      | Some s \<Rightarrow>
          (case Number_dec (filter (\<lambda>c. is_digit c \<or> c = CHR ''.'') s) of
             None \<Rightarrow> None
           | Some n \<Rightarrow> if \<bar>n\<bar> < of_int overflow_bound then Some n else None))"

section \<open>Identity\<close>

definition country_table :: "(string \<times> string) list" where
  "country_table =
     [(''Argentina'', ''AR''), (''Brazil'', ''BR''), (''Chile'', ''CL''), (''Colombia'', ''CO''),
      (''Costa Rica'', ''CR''), (''Dominican Republic'', ''DO''), (''Ecuador'', ''EC''),
      (''El Salvador'', ''SV''), (''Guatemala'', ''GT''), (''Haiti'', ''HT''),
      (''Honduras'', ''HN''), (''Jamaica'', ''JM''), (''Mexico'', ''MX''), (''Nicaragua'', ''NI''),
      (''Panama'', ''PA''), (''Paraguay'', ''PY''), (''Peru'', ''PE''), (''Uruguay'', ''UY''),
      (''Trinidad and Tobago'', ''TT''), (''Barbados'', ''BB''), (''Belize'', ''BZ''),
      (''Bolivia'', ''BO''), (''Guyana'', ''GY''), (''Suriname'', ''SR''), (''Bahamas'', ''BS'')]"

text \<open>
  The table \<open>M\<close> is an object literal, so \<open>M[k]\<close> also finds the members every object
  inherits from \<open>Object.prototype\<close>; such a result is an object, not a string.
\<close>

definition object_prototype_keys :: "string list" where
  "object_prototype_keys =
     [''constructor'', ''__defineGetter__'', ''__defineSetter__'', ''hasOwnProperty'',
      ''__lookupGetter__'', ''__lookupSetter__'', ''isPrototypeOf'', ''propertyIsEnumerable'',
      ''toString'', ''valueOf'', ''__proto__'', ''toLocaleString'']"

datatype js_value = Str string | Inherited string

definition mapCountryToISO2 :: "string \<Rightarrow> js_value option" where
  "mapCountryToISO2 name =
     (let k = trim name
      in case map_of country_table k of
           Some c \<Rightarrow> Some (Str c)
         | None \<Rightarrow> if k \<in> set object_prototype_keys then Some (Inherited k) else None)"

text \<open>The units kept by \<open>replace(/[^a-z0-9\-_.]/gi, "")\<close>.\<close>

definition is_slug_unit :: "char \<Rightarrow> bool" where
  "is_slug_unit c =
     (c \<in> set ''abcdefghijklmnopqrstuvwxyzABCDEFGHIJKLMNOPQRSTUVWXYZ0123456789-_.'')"

definition stableIdFromURLorTitle :: "host \<Rightarrow> string option \<Rightarrow> string \<Rightarrow> string" where
  "stableIdFromURLorTitle P url title =
     (case url of
        None \<Rightarrow> take 16 (sha256 P title)
      | Some u \<Rightarrow>
          if u = [] then take 16 (sha256 P title)
          else
            (case parseURL P u of
               None \<Rightarrow> take 16 (sha256 P u)
             | Some (pathname, search) \<Rightarrow>
                 (let segs = filter (\<lambda>p. p \<noteq> []) (split_fields (\<lambda>c. c = CHR ''/'') [] pathname);
                      lst = (if segs \<noteq> [] then last segs
                             else if search \<noteq> [] then search else u);
                      slug = take 80 (filter is_slug_unit lst)
                  in if slug \<noteq> [] then slug else take 16 (sha256 P u))))"

section \<open>Row normalizer\<close>

text \<open>A RawRow: header text to cell text.\<close>

type_synonym raw_row = "string \<rightharpoonup> string"

definition filled :: "raw_row \<Rightarrow> string \<Rightarrow> bool" where
  "filled row k = (case row k of None \<Rightarrow> False | Some v \<Rightarrow> trim v \<noteq> [])"

fun headerPick :: "raw_row \<Rightarrow> string list \<Rightarrow> string option" where
  "headerPick row [] = None"
| "headerPick row (k # ks) =
     (if filled row k then row k
      else if filled row (toUpperCase k) then row (toUpperCase k)
      else if filled row (toLowerCase k) then row (toLowerCase k)
      else headerPick row ks)"

definition PAGE_URL :: string where
  "PAGE_URL = ''https://projectprocurement.iadb.org/en/procurement-notices''"

record canonical =
  id' :: string
  source :: string
  noticeId :: string
  projectId :: "string option"
  projectName :: "string option"
  title :: string
  summary_original :: "string option"
  summary_ko :: "string option"
  countryName :: "string option"
  country :: "js_value option"
  sector :: "string list"
  category :: string
  method' :: "string option"
  noticeType :: string
  currency :: "string option"
  budgetEstimate :: "rat option"
  publicationDate :: "string option"
  deadline :: "string option"
  buyer :: "string option"
  city :: "string option"
  language :: "string list"
  url :: string
  documents :: "string list"
  lastSeenAt :: string
  hash :: string

text \<open>\<open>a || ""\<close> and \<open>String(a || "")\<close> for a string or \<open>null\<close>.\<close>

definition or_empty :: "string option \<Rightarrow> string" where
  "or_empty a = (case a of None \<Rightarrow> [] | Some s \<Rightarrow> s)"

text \<open>\<open>a || null\<close> for a string or \<open>null\<close>: the empty string is falsy.\<close>

definition or_null :: "string option \<Rightarrow> string option" where
  "or_null a = (case a of None \<Rightarrow> None | Some s \<Rightarrow> if s = [] then None else Some s)"

text \<open>\<open>[a, b, c, d].join("|")\<close>.\<close>

definition join4 :: "string \<Rightarrow> string \<Rightarrow> string \<Rightarrow> string \<Rightarrow> string" where
  "join4 a b c d = a @ ''|'' @ b @ ''|'' @ c @ ''|'' @ d"

text \<open>
  The body of the \<open>map\<close> callback of \<open>normalizeRows\<close>, for one row and the text \<open>now\<close> of
  the clock when the row is reached. The two calls of \<open>toISO\<close> are where an exception
  could leave the callback.
\<close>

definition normalizeRow :: "host \<Rightarrow> string \<Rightarrow> raw_row \<Rightarrow> js_error + canonical" where
  "normalizeRow P now r =
     (let title0 = headerPick r [''Notice Title'', ''Title''];
          url0 = headerPick r [''URL'', ''Link'', ''Notice URL''];
          countryName0 = headerPick r [''Country''];
          noticeType0 = headerPick r [''Type'', ''Notice Type''];
          projName = headerPick r [''Project Name'', ''Project''];
          projNo = headerPick r [''Project Number'', ''Project ID''];
          pub = headerPick r [''Publication Date'', ''Posted''];
          due = headerPick r [''Due Date'', ''Deadline'', ''Closing Date''];
          buyer0 = headerPick r [''Executing Agency'', ''Buyer'', ''Agency''];
          category0 = headerPick r [''Category''];
          method0 = headerPick r [''Method''];
          currency0 = or_null (headerPick r [''Currency'']);
          budget = or_null (headerPick r [''Budget'', ''Estimate'']);
          titleSafe = (if trim (or_empty title0) \<noteq> [] then trim (or_empty title0)
                       else ''(untitled)'');
          id0 = ''IDB:'' @ stableIdFromURLorTitle P url0 titleSafe
      in case toISO P pub of
           Inl e \<Rightarrow> Inl e
         | Inr pubISO \<Rightarrow>
             (case toISO P due of
                Inl e \<Rightarrow> Inl e
              | Inr dueISO \<Rightarrow>
                  (let url1 = (if or_empty url0 \<noteq> [] then or_empty url0 else PAGE_URL);
                       cname = or_null countryName0
                   in Inr \<lparr> id' = id0,
                        source = ''IDB'',
                        noticeId = takeWhile (\<lambda>c. c \<noteq> CHR '':'') (drop 4 id0),
                        projectId = or_null projNo,
                        projectName = or_null projName,
                        title = titleSafe,
                        summary_original = None,
                        summary_ko = None,
                        countryName = cname,
                        country =
                          (case mapCountryToISO2 (or_empty countryName0) of
                             Some (Str []) \<Rightarrow> None
                           | v \<Rightarrow> v),
                        sector = inferSectors titleSafe,
                        category =
                          (if trim (or_empty category0) \<noteq> [] then trim (or_empty category0)
                           else classifyCategory (or_empty noticeType0)),
                        method' = or_null method0,
                        noticeType = classifyType (or_empty noticeType0),
                        currency = currency0,
                        budgetEstimate = toNum budget,
                        publicationDate = pubISO,
                        deadline = dueISO,
                        buyer = or_null buyer0,
                        city = None,
                        language = [''en''],
                        url = url1,
                        documents = [],
                        lastSeenAt = now,
                        hash = sha256 P (join4 titleSafe (or_empty cname) (or_empty dueISO) url1)
                      \<rparr>)))"

text \<open>\<open>rows.map(f)\<close> for a callback that may throw: the first exception ends the map.\<close>

fun map_rows :: "(nat \<Rightarrow> 'a \<Rightarrow> js_error + 'b) \<Rightarrow> nat \<Rightarrow> 'a list \<Rightarrow> js_error + 'b list" where
  "map_rows f i [] = Inr []"
| "map_rows f i (x # xs) =
     (case f i x of
        Inl e \<Rightarrow> Inl e
      | Inr y \<Rightarrow> (case map_rows f (Suc i) xs of Inl e \<Rightarrow> Inl e | Inr ys \<Rightarrow> Inr (y # ys)))"

definition normalizeRows :: "host \<Rightarrow> raw_row list \<Rightarrow> js_error + canonical list" where
  "normalizeRows P rows =
     (case map_rows (\<lambda>i r. normalizeRow P (nowISO P i) r) 0 rows of
        Inl e \<Rightarrow> Inl e
      | Inr xs \<Rightarrow> Inr (filter (\<lambda>x. title x \<noteq> [] \<and> url x \<noteq> []) xs))"

section \<open>Deduplicator\<close>

text \<open>
  The \<open>Map\<close> of \<open>dedupeByIdHash\<close> is an association list in insertion order;
  \<open>[...m.values()]\<close> reads it back in that order.
\<close>

definition dedupe_key :: "canonical \<Rightarrow> string" where
  "dedupe_key n = id' n @ '':'' @ hash n"

definition dedupe_step :: "(string \<times> canonical) list \<Rightarrow> canonical \<Rightarrow> (string \<times> canonical) list" where
  "dedupe_step m n = (if map_of m (dedupe_key n) = None then m @ [(dedupe_key n, n)] else m)"

definition dedupeByIdHash :: "canonical list \<Rightarrow> canonical list" where
  "dedupeByIdHash arr = map snd (foldl dedupe_step [] arr)"

section \<open>Extraction orchestrator\<close>

text \<open>
  What one run meets outside the script: whether \<open>getPowerBIFrame\<close> found the embed,
  and for each attempt whether \<open>waitForPowerBiGrid\<close> saw a grid and which rows
  \<open>parseAccessibleTable\<close> returned. Neither of the two throws: both catch what their
  queries raise. A fault of the browser or of the file system (launch, navigation, write)
  is no part of the model.
\<close>

record world =
  frame_found :: bool
  grid_ready :: "nat \<Rightarrow> bool"
  parsed :: "nat \<Rightarrow> raw_row list"

definition RETRIES :: nat where
  "RETRIES = 3"

text \<open>
  The \<open>for\<close> loop of the main function, from \<open>attempt\<close> on, with the current value of
  \<open>rawRows\<close> and the delays slept so far (ms). \<open>Inl\<close> is the exception thrown when the
  grid is not visible on the last attempt.
\<close>

function attempts :: "world \<Rightarrow> nat \<Rightarrow> raw_row list \<Rightarrow> int list
    \<Rightarrow> js_error + raw_row list \<times> int list" where
  "attempts w attempt rawRows slept =
     (if attempt \<le> RETRIES then
        (if \<not> grid_ready w attempt then
           (if attempt = RETRIES then Inl (Error ''Power BI grid not visible after waiting'')
            else attempts w (attempt + 1) rawRows (slept @ [1500 * int attempt]))
         else
           (let rows = parsed w attempt
            in if rows \<noteq> [] then Inr (rows, slept)
               else attempts w (attempt + 1) rows
                      (if attempt < RETRIES then slept @ [1500 * int attempt] else slept)))
      else Inr (rawRows, slept))"
  by pat_completeness auto
termination
  by (relation "measure (\<lambda>(w, attempt, rawRows, slept). Suc RETRIES - attempt)") auto

text \<open>
  How the process ends: \<open>Exit0 files\<close> after both \<open>writeFileSync\<close> calls and the
  \<open>OK\<close> line, with the files written (path and the notices serialised into it) and exit
  status 0; \<open>Exit1 e\<close> from the \<open>catch\<close> handler, which prints \<open>e\<close> and calls
  \<open>process.exit(1)\<close> with nothing written.
\<close>

datatype outcome = Exit0 "(string \<times> canonical list) list" | Exit1 js_error

definition main :: "host \<Rightarrow> world \<Rightarrow> outcome" where
  "main P w =
     (if \<not> frame_found w then Exit1 (Error ''Power BI iframe not found (embed may be slow)'')
      else
        (case attempts w 1 [] [] of
           Inl e \<Rightarrow> Exit1 e
         | Inr (rawRows, slept) \<Rightarrow>
             (case normalizeRows P rawRows of
                Inl e \<Rightarrow> Exit1 e
              | Inr rows \<Rightarrow>
                  (let notices = dedupeByIdHash rows;
                       today = take 10 (nowISO P (length rawRows))
                   in Exit0 [(''data/notices.json'', notices),
                             (''data/notices-'' @ today @ ''.json'', notices)]))))"

section \<open>A host for closed examples\<close>

text \<open>
  Closed examples need one host. This one has the identity as digest (free of
  collisions), a URL parser and a date parser that reject every string, and a clock that
  stands still.
\<close>

definition example_host :: host where
  "example_host =
     \<lparr> sha256 = (\<lambda>s. s), parseURL = (\<lambda>u. None), parseDate = (\<lambda>s. None),
       nowISO = (\<lambda>n. ''2024-01-01T00:00:00.000Z'') \<rparr>"

section \<open>The pipeline and the inputs of the examples\<close>

text \<open>\<open>dedupeByIdHash(normalizeRows(rawRows))\<close>, as the main function calls it.\<close>

definition pipeline :: "host \<Rightarrow> raw_row list \<Rightarrow> js_error + canonical list" where
  "pipeline P rows =
     (case normalizeRows P rows of Inl e \<Rightarrow> Inl e | Inr cs \<Rightarrow> Inr (dedupeByIdHash cs))"

text \<open>The row of the end-to-end scenario of the specification.\<close>

definition bridge_row :: raw_row where
  "bridge_row =
     [''Notice Title'' \<mapsto> ''Bridge Rehabilitation'', ''Country'' \<mapsto> ''Peru'',
      ''Due Date'' \<mapsto> ''15/03/2024'']"

text \<open>A row with neither a title nor a URL under any alias.\<close>

definition country_only_row :: raw_row where
  "country_only_row = [''Country'' \<mapsto> ''Peru'']"

text \<open>A run in which the embed is found, the grid is visible and the parser finds no row.\<close>

definition empty_grid_world :: world where
  "empty_grid_world = \<lparr> frame_found = True, grid_ready = (\<lambda>i. True), parsed = (\<lambda>i. []) \<rparr>"

section \<open>Notions used to state the properties of hashing and deduplication\<close>

text \<open>The pair that the specification names as the dedup key.\<close>

definition id_hash :: "canonical \<Rightarrow> string \<times> string" where
  "id_hash n = (id' n, hash n)"

text \<open>
  The entries of \<open>ns\<close> that start a new key under \<open>f\<close>, in their order, given the entries
  \<open>seen\<close> before them.
\<close>

fun first_by :: "('a \<Rightarrow> 'k) \<Rightarrow> 'a list \<Rightarrow> 'a list \<Rightarrow> 'a list" where
  "first_by f seen [] = []"
| "first_by f seen (n # ns) =
     (if f n \<in> f ` set seen then first_by f seen ns else n # first_by f (n # seen) ns)"

text \<open>A record with a given \<open>id\<close> and \<open>hash\<close>, for closed examples of deduplication.\<close>

definition sample_notice :: "string \<Rightarrow> string \<Rightarrow> canonical" where
  "sample_notice i h =
     \<lparr> id' = i, source = ''IDB'', noticeId = drop 4 i, projectId = None, projectName = None,
       title = ''Road works'', summary_original = None, summary_ko = None,
       countryName = None, country = None, sector = [''Transport''], category = ''Works'',
       method' = None, noticeType = ''Other'', currency = None, budgetEstimate = None,
       publicationDate = None, deadline = None, buyer = None, city = None,
       language = [''en''], url = PAGE_URL, documents = [],
       lastSeenAt = ''2024-01-01T00:00:00.000Z'', hash = h \<rparr>"

text \<open>No salient text field of the record holds the separator of the hashed text.\<close>

definition pipe_free :: "canonical \<Rightarrow> bool" where
  "pipe_free c =
     (CHR ''|'' \<notin> set (title c) \<and> CHR ''|'' \<notin> set (or_empty (countryName c))
      \<and> CHR ''|'' \<notin> set (url c))"

text \<open>Two rows whose salient fields differ and whose hashed texts coincide.\<close>

definition piped_title_row :: raw_row where
  "piped_title_row = [''Title'' \<mapsto> ''Road|Lima'']"

definition piped_country_row :: raw_row where
  "piped_country_row = [''Title'' \<mapsto> ''Road'', ''Country'' \<mapsto> ''Lima|'']"

section \<open>Properties of the classifiers\<close>

lemma classifyType_hit:
  assumes "type_keyword_hit s"
  shows "classifyType_v6 s = classifyType s" and "List.member type_enum (classifyType s)"
  using assms
  by (auto simp: type_keyword_hit_def type_keywords_def classifyType_def classifyType_v6_def
      type_enum_def re_alt_def Let_def)

lemma classifyCategory_hit:
  assumes "category_keyword_hit s"
  shows "classifyCategory_v6 s = classifyCategory s"
    and "List.member category_enum (classifyCategory s)"
  using assms
  by (auto simp: category_keyword_hit_def category_keywords_def classifyCategory_def
      classifyCategory_v6_def category_enum_def re_alt_def Let_def)

lemma classifyType_miss:
  assumes "\<not> type_keyword_hit s"
  shows "classifyType s = (if s = [] then ''Other'' else s)" and "classifyType_v6 s = ''Other''"
  using assms
  by (auto simp: type_keyword_hit_def type_keywords_def classifyType_def classifyType_v6_def
      re_alt_def Let_def)

lemma classifyCategory_miss:
  assumes "\<not> category_keyword_hit s"
  shows "classifyCategory s = (if s = [] then ''Other'' else s)"
    and "classifyCategory_v6 s = ''Other''"
  using assms
  by (auto simp: category_keyword_hit_def category_keywords_def classifyCategory_def
      classifyCategory_v6_def re_alt_def Let_def)

lemma no_hit_empty: "\<not> type_keyword_hit []" "\<not> category_keyword_hit []"
  by code_simp+

text \<open>
  Claim C9. The two generations of \<open>classifyType\<close> and of \<open>classifyCategory\<close> agree
  on every input that contains one of the classification keywords, and the common
  result is a label of the enum; on a non-empty input that contains no keyword the later
  generation returns the input unchanged and the earlier one returns \<open>"Other"\<close>; on the
  empty input both return \<open>"Other"\<close>.
\<close>

theorem classifier_generations:
  "(type_keyword_hit s \<longrightarrow>
      classifyType_v6 s = classifyType s \<and> List.member type_enum (classifyType s))
   \<and> (category_keyword_hit s \<longrightarrow>
      classifyCategory_v6 s = classifyCategory s
      \<and> List.member category_enum (classifyCategory s))
   \<and> (\<not> type_keyword_hit s \<and> s \<noteq> [] \<longrightarrow>
      classifyType s = s \<and> classifyType_v6 s = ''Other'')
   \<and> (\<not> category_keyword_hit s \<and> s \<noteq> [] \<longrightarrow>
      classifyCategory s = s \<and> classifyCategory_v6 s = ''Other'')
   \<and> classifyType [] = ''Other'' \<and> classifyType_v6 [] = ''Other''
   \<and> classifyCategory [] = ''Other'' \<and> classifyCategory_v6 [] = ''Other''"
proof -
  have "classifyType [] = ''Other''" "classifyType_v6 [] = ''Other''"
    using classifyType_miss [OF no_hit_empty(1)] by simp_all
  moreover have "classifyCategory [] = ''Other''" "classifyCategory_v6 [] = ''Other''"
    using classifyCategory_miss [OF no_hit_empty(2)] by simp_all
  ultimately show ?thesis
    using classifyType_hit [of s] classifyCategory_hit [of s]
      classifyType_miss [of s] classifyCategory_miss [of s]
    by simp
qed

theorem classifier_generations_witness:
  "type_keyword_hit ''Request for Proposals (RFP)''
   \<and> classifyType_v6 ''Request for Proposals (RFP)'' = ''RFP''
   \<and> classifyType ''Request for Proposals (RFP)'' = ''RFP''
   \<and> category_keyword_hit ''Civil Works''
   \<and> classifyCategory_v6 ''Civil Works'' = ''Works''
   \<and> classifyCategory ''Civil Works'' = ''Works''
   \<and> \<not> type_keyword_hit ''Prior Notice'' \<and> ''Prior Notice'' \<noteq> []
   \<and> classifyType ''Prior Notice'' = ''Prior Notice''
   \<and> classifyType_v6 ''Prior Notice'' = ''Other''
   \<and> \<not> category_keyword_hit ''Prior Notice''
   \<and> classifyCategory ''Prior Notice'' = ''Prior Notice''
   \<and> classifyCategory_v6 ''Prior Notice'' = ''Other''"
proof -
  have hit: "type_keyword_hit ''Request for Proposals (RFP)''"
    by code_simp
  have chit: "category_keyword_hit ''Civil Works''"
    by code_simp
  have miss: "\<not> type_keyword_hit ''Prior Notice''"
    by code_simp
  have cmiss: "\<not> category_keyword_hit ''Prior Notice''"
    by code_simp
  have v7: "classifyType ''Request for Proposals (RFP)'' = ''RFP''"
    by code_simp
  have c7: "classifyCategory ''Civil Works'' = ''Works''"
    by code_simp
  show ?thesis
    using classifier_generations [of "''Request for Proposals (RFP)''"]
      classifier_generations [of "''Civil Works''"]
      classifier_generations [of "''Prior Notice''"] hit chit miss cmiss v7 c7
    by simp
qed


section \<open>Properties of the date normalizer\<close>

lemma toISOString_Some: "\<exists>z. toISOString (Some t) = Inr z \<and> z \<noteq> []"
  by (simp add: toISOString_def Let_def split: prod.split)

lemma iso_slice_Some: "\<exists>z. iso_slice (Some t) = Inr (Some z) \<and> z \<noteq> []"
proof -
  obtain z where z: "toISOString (Some t) = Inr z" "z \<noteq> []"
    using toISOString_Some by blast
  then have "iso_slice (Some t) = Inr (Some (take 10 z))" "take 10 z \<noteq> []"
    by (simp_all add: iso_slice_def)
  then show ?thesis by blast
qed

lemma toISO_structured:
  assumes "r \<noteq> []"
  shows "toISO P (Some r) =
           (if structured (date_text r) \<noteq> None then iso_slice (structured (date_text r))
            else if new_Date P (date_text r) \<noteq> None then iso_slice (new_Date P (date_text r))
            else Inr None)"
  using assms
  by (simp add: toISO_def structured_def Let_def split: list.split prod.split)

lemma toISO_cases:
  assumes "r \<noteq> []"
  obtains (structured) t where "structured (date_text r) = Some t"
      "toISO P (Some r) = iso_slice (Some t)"
    | (generic) t where "structured (date_text r) = None" "new_Date P (date_text r) = Some t"
      "toISO P (Some r) = iso_slice (Some t)"
    | (failed) "structured (date_text r) = None" "new_Date P (date_text r) = None"
      "toISO P (Some r) = Inr None"
  using toISO_structured [OF assms, of P]
  by (cases "structured (date_text r)"; cases "new_Date P (date_text r)") auto

lemma toISO_empty: "toISO P None = Inr None" "toISO P (Some []) = Inr None"
  by (simp_all add: toISO_def)

lemma toISO_total: "\<exists>v. toISO P raw = Inr v"
proof (cases "raw = None \<or> raw = Some []")
  case True
  then show ?thesis using toISO_empty by auto
next
  case False
  then obtain r where r: "raw = Some r" "r \<noteq> []" by auto
  from r(2) show ?thesis
  proof (cases rule: toISO_cases [where P = P])
    case (structured t)
    then show ?thesis using iso_slice_Some [of t] r(1) by auto
  next
    case (generic t)
    then show ?thesis using iso_slice_Some [of t] r(1) by auto
  next
    case failed
    then show ?thesis using r(1) by simp
  qed
qed

lemma toISO_nonempty:
  assumes "toISO P raw = Inr (Some z)"
  shows "z \<noteq> []"
proof (cases "raw = None \<or> raw = Some []")
  case True
  then show ?thesis using toISO_empty [of P] assms by auto
next
  case False
  then obtain r where r: "raw = Some r" "r \<noteq> []" by auto
  from r(2) show ?thesis
  proof (cases rule: toISO_cases [where P = P])
    case (structured t)
    then show ?thesis using iso_slice_Some [of t] assms r(1) by auto
  next
    case (generic t)
    then show ?thesis using iso_slice_Some [of t] assms r(1) by auto
  next
    case failed
    then show ?thesis using assms r(1) by simp
  qed
qed

lemma date_text_empty: "date_nums (date_text []) = []"
  by code_simp

text \<open>
  Claim C7. \<open>toISO\<close> maps \<open>"31/01/2024"\<close> and \<open>"2024/01/31"\<close> to \<open>"2024-01-31"\<close>,
  \<open>"13/02/2024"\<close> to \<open>"2024-02-13"\<close> and the empty string to \<open>null\<close>, on every host;
  \<open>"not a date"\<close> to \<open>null\<close> on every host whose date parser rejects that string. When
  the structured reading gives no time value and the host's parser rejects the text, the
  result is \<open>null\<close>; and no input makes \<open>toISO\<close> throw: its only throwing call,
  \<open>toISOString\<close>, is reached with valid dates alone.
\<close>

theorem toISO_examples:
  "toISO P (Some ''31/01/2024'') = Inr (Some ''2024-01-31'')
   \<and> toISO P (Some ''2024/01/31'') = Inr (Some ''2024-01-31'')
   \<and> toISO P (Some ''13/02/2024'') = Inr (Some ''2024-02-13'')
   \<and> toISO P (Some []) = Inr None
   \<and> (parseDate P ''not a date'' = None \<longrightarrow> toISO P (Some ''not a date'') = Inr None)
   \<and> (structured (date_text r) = None \<and> new_Date P (date_text r) = None
        \<longrightarrow> toISO P (Some r) = Inr None)
   \<and> (\<exists>v. toISO P raw = Inr v)"
proof -
  have e1: "toISO P (Some ''31/01/2024'') = Inr (Some ''2024-01-31'')"
    by code_simp
  have e2: "toISO P (Some ''2024/01/31'') = Inr (Some ''2024-01-31'')"
    by code_simp
  have e3: "toISO P (Some ''13/02/2024'') = Inr (Some ''2024-02-13'')"
    by code_simp
  have s: "structured (date_text ''not a date'') = None"
    by code_simp
  have t: "date_text ''not a date'' = ''not a date''"
    by code_simp
  have fail: "toISO P (Some r) = Inr None"
    if "structured (date_text r) = None" "new_Date P (date_text r) = None" for r
  proof (cases "r = []")
    case True
    then show ?thesis by (simp add: toISO_empty)
  next
    case False
    then show ?thesis using that by (simp add: toISO_structured)
  qed
  have e5: "toISO P (Some ''not a date'') = Inr None" if "parseDate P ''not a date'' = None"
    using fail [of "''not a date''"] s that by (simp add: t new_Date_def)
  show ?thesis
    using e1 e2 e3 e5 fail [of r] toISO_empty(2) [of P] toISO_total [of P raw] by blast
qed

theorem toISO_examples_witness:
  "parseDate example_host ''not a date'' = None
   \<and> toISO example_host (Some ''not a date'') = Inr None
   \<and> structured (date_text ''to be announced'') = None
   \<and> new_Date example_host (date_text ''to be announced'') = None
   \<and> toISO example_host (Some ''to be announced'') = Inr None"
proof -
  have h1: "parseDate example_host ''not a date'' = None"
    by (simp add: example_host_def)
  have h2: "structured (date_text ''to be announced'') = None"
    by code_simp
  have h3: "new_Date example_host (date_text ''to be announced'') = None"
    by (simp add: example_host_def new_Date_def)
  show ?thesis
    using toISO_examples [of example_host "''to be announced''"] h1 h2 h3 by simp
qed

text \<open>
  Claim C10, amended. For a date text with at least three numbers, read as year \<open>y\<close>,
  month \<open>m\<close> and day \<open>d\<close>: when \<open>Date.UTC\<close> gives a time value, it is the instant
  \<open>d - 1\<close> days after the first day of month \<open>m\<close> (months past 12 carried into the
  year), at most 100000000 days from the epoch, and \<open>toISO\<close> returns the first ten
  units of its ISO text, never \<open>null\<close>; \<open>"32/01/2024"\<close> gives \<open>"2024-02-01"\<close> and
  \<open>"31/02/2024"\<close> gives \<open>"2024-03-02"\<close>. When the rolled-over day lies beyond that
  range, \<open>Date.UTC\<close> is \<open>NaN\<close> and the result is that of the host's parser, \<open>null\<close>
  when it rejects the text.
\<close>

theorem toISO_rollover:
  assumes "date_nums (date_text r) = n0 # n1 # n2 # rest"
    and "ymd n0 n1 n2 = (y, m, d)"
  shows "(\<forall>t. Date_UTC y (m - 1) d = Some t \<longrightarrow>
            (\<exists>z. toISOString (Some t) = Inr z \<and> toISO P (Some r) = Inr (Some (take 10 z)))
            \<and> t = (MakeDay (if 0 \<le> y \<and> y \<le> 99 then 1900 + y else y) (m - 1) 1 + (d - 1))
                    * msPerDay
            \<and> \<bar>t\<bar> \<le> 100000000 * msPerDay)
         \<and> (Date_UTC y (m - 1) d = None \<longrightarrow>
              toISO P (Some r) =
                (if new_Date P (date_text r) \<noteq> None then iso_slice (new_Date P (date_text r))
                 else Inr None))
         \<and> toISO P (Some ''32/01/2024'') = Inr (Some ''2024-02-01'')
         \<and> toISO P (Some ''31/02/2024'') = Inr (Some ''2024-03-02'')"
proof -
  have r: "r \<noteq> []"
    using assms(1) date_text_empty by auto
  have st: "structured (date_text r) = Date_UTC y (m - 1) d"
    using assms by (simp add: structured_def)
  have in_range: "\<exists>z. toISOString (Some t) = Inr z \<and> toISO P (Some r) = Inr (Some (take 10 z))"
    if "Date_UTC y (m - 1) d = Some t" for t
  proof -
    obtain z where z: "toISOString (Some t) = Inr z"
      using toISOString_Some by blast
    have "toISO P (Some r) = iso_slice (Some t)"
      using that st by (simp add: toISO_structured [OF r])
    then show ?thesis using z by (simp add: iso_slice_def)
  qed
  have value_of: "t = (MakeDay (if 0 \<le> y \<and> y \<le> 99 then 1900 + y else y) (m - 1) 1 + (d - 1))
                    * msPerDay \<and> \<bar>t\<bar> \<le> 100000000 * msPerDay"
    if "Date_UTC y (m - 1) d = Some t" for t
    using that
    by (auto simp: Date_UTC_def TimeClip_def MakeDay_def msPerDay_def Let_def split: if_splits)
  have out: "toISO P (Some r) =
                (if new_Date P (date_text r) \<noteq> None then iso_slice (new_Date P (date_text r))
                 else Inr None)"
    if "Date_UTC y (m - 1) d = None"
    using that st by (simp add: toISO_structured [OF r])
  have e1: "toISO P (Some ''32/01/2024'') = Inr (Some ''2024-02-01'')"
    by code_simp
  have e2: "toISO P (Some ''31/02/2024'') = Inr (Some ''2024-03-02'')"
    by code_simp
  show ?thesis
    using in_range value_of out e1 e2 by blast
qed

theorem toISO_rollover_witness:
  "date_nums (date_text ''30/02/2023'') = [30, 2, 2023]
   \<and> ymd 30 2 2023 = (2023, 2, 30)
   \<and> Date_UTC 2023 (2 - 1) 30 = Some 1677715200000
   \<and> toISO example_host (Some ''30/02/2023'') = Inr (Some ''2023-03-02'')
   \<and> date_nums (date_text ''400000000/01/2024'') = [400000000, 1, 2024]
   \<and> Date_UTC 2024 (1 - 1) 400000000 = None
   \<and> new_Date example_host (date_text ''400000000/01/2024'') = None
   \<and> toISO example_host (Some ''400000000/01/2024'') = Inr None"
proof -
  have a1: "date_nums (date_text ''30/02/2023'') = [30, 2, 2023]"
    by code_simp
  have a2: "ymd 30 2 2023 = (2023, 2, 30)"
    by code_simp
  have a3: "Date_UTC 2023 (2 - 1) 30 = Some 1677715200000"
    by code_simp
  have a4: "toISOString (Some 1677715200000) = Inr ''2023-03-02T00:00:00.000Z''"
    by code_simp
  have b1: "date_nums (date_text ''400000000/01/2024'') = [400000000, 1, 2024]"
    by code_simp
  have b2: "ymd 400000000 1 2024 = (2024, 1, 400000000)"
    by code_simp
  have b3: "Date_UTC 2024 (1 - 1) 400000000 = None"
    by code_simp
  have b4: "new_Date example_host (date_text ''400000000/01/2024'') = None"
    by (simp add: example_host_def new_Date_def)
  show ?thesis
    using toISO_rollover [OF a1 a2, of example_host] toISO_rollover [OF b1 b2, of example_host]
      a1 a2 a3 a4 b1 b3 b4
    by simp
qed

text \<open>
  Claim C10 as stated fails: the day 400000000 of January 2024 is past the last day a
  \<open>Date\<close> holds, and a host whose parser rejects the text (as V8 does, the first number
  not being a month) leaves \<open>null\<close>.
\<close>

theorem toISO_out_of_range_counterexample:
  "date_nums (date_text ''400000000/01/2024'') = [400000000, 1, 2024]
   \<and> toISO example_host (Some ''400000000/01/2024'') = Inr None"
  by code_simp

section \<open>Properties of the row normalizer\<close>

declare headerPick.simps [simp del]

lemma PAGE_URL_nonempty: "PAGE_URL \<noteq> []"
  by (simp add: PAGE_URL_def)

lemma or_null_not_empty: "or_null a \<noteq> Some []"
  by (simp add: or_null_def split: option.split)

lemma normalizeRow_fields:
  assumes "normalizeRow P now r = Inr c"
  shows "title c = (if trim (or_empty (headerPick r [''Notice Title'', ''Title''])) \<noteq> []
                    then trim (or_empty (headerPick r [''Notice Title'', ''Title'']))
                    else ''(untitled)'')"
    and "url c = (if or_empty (headerPick r [''URL'', ''Link'', ''Notice URL'']) \<noteq> []
                  then or_empty (headerPick r [''URL'', ''Link'', ''Notice URL'']) else PAGE_URL)"
    and "countryName c = or_null (headerPick r [''Country''])"
    and "toISO P (headerPick r [''Due Date'', ''Deadline'', ''Closing Date'']) = Inr (deadline c)"
    and "hash c = sha256 P (join4 (title c) (or_empty (countryName c))
                              (or_empty (deadline c)) (url c))"
proof -
  obtain p where p: "toISO P (headerPick r [''Publication Date'', ''Posted'']) = Inr p"
    using toISO_total by blast
  obtain d where d: "toISO P (headerPick r [''Due Date'', ''Deadline'', ''Closing Date'']) = Inr d"
    using toISO_total by blast
  note c = assms [unfolded normalizeRow_def Let_def p d sum.case, simplified, symmetric]
  show "title c = (if trim (or_empty (headerPick r [''Notice Title'', ''Title''])) \<noteq> []
                    then trim (or_empty (headerPick r [''Notice Title'', ''Title'']))
                    else ''(untitled)'')"
    by (subst c) simp
  show "url c = (if or_empty (headerPick r [''URL'', ''Link'', ''Notice URL'']) \<noteq> []
                  then or_empty (headerPick r [''URL'', ''Link'', ''Notice URL'']) else PAGE_URL)"
    by (subst c) simp
  show "countryName c = or_null (headerPick r [''Country''])"
    by (subst c) simp
  show "toISO P (headerPick r [''Due Date'', ''Deadline'', ''Closing Date'']) = Inr (deadline c)"
    by (subst c) (simp add: d)
  show "hash c = sha256 P (join4 (title c) (or_empty (countryName c))
                              (or_empty (deadline c)) (url c))"
    by (subst (1 2 3 4 5) c) simp
qed

lemma normalizeRow_total: "\<exists>c. normalizeRow P now r = Inr c"
proof -
  obtain p where p: "toISO P (headerPick r [''Publication Date'', ''Posted'']) = Inr p"
    using toISO_total by blast
  obtain d where d: "toISO P (headerPick r [''Due Date'', ''Deadline'', ''Closing Date'']) = Inr d"
    using toISO_total by blast
  show ?thesis
    unfolding normalizeRow_def Let_def p d sum.case by blast
qed

lemma normalizeRow_kept:
  assumes "normalizeRow P now r = Inr c"
  shows "title c \<noteq> []" and "url c \<noteq> []"
  using normalizeRow_fields(1,2) [OF assms] by (auto simp: PAGE_URL_nonempty)

lemma map_rows_total:
  assumes "\<And>i x. \<exists>y. f i x = Inr y"
  shows "\<exists>ys. map_rows f i xs = Inr ys \<and> length ys = length xs"
proof (induction xs arbitrary: i)
  case Nil
  then show ?case by simp
next
  case (Cons x xs)
  obtain y where y: "f i x = Inr y" using assms by blast
  obtain ys where ys: "map_rows f (Suc i) xs = Inr ys" "length ys = length xs"
    using Cons.IH by blast
  show ?case using y ys by simp
qed

lemma map_rows_member:
  assumes "map_rows f i xs = Inr ys" and "y \<in> set ys"
  shows "\<exists>j x. f j x = Inr y"
  using assms
proof (induction xs arbitrary: i ys)
  case Nil
  then show ?case by simp
next
  case (Cons x xs)
  obtain z where z: "f i x = Inr z"
    using Cons.prems(1) by (cases "f i x") auto
  obtain zs where zs: "map_rows f (Suc i) xs = Inr zs"
    using Cons.prems(1) z by (cases "map_rows f (Suc i) xs") auto
  have "ys = z # zs" using Cons.prems(1) z zs by simp
  then consider "y = z" | "y \<in> set zs" using Cons.prems(2) by auto
  then show ?case
  proof cases
    case 1
    then show ?thesis using z by blast
  next
    case 2
    then show ?thesis using Cons.IH [OF zs] by blast
  qed
qed

lemma normalizeRows_member:
  assumes "normalizeRows P rows = Inr cs" and "c \<in> set cs"
  shows "\<exists>now r. normalizeRow P now r = Inr c"
proof -
  obtain xs where xs: "map_rows (\<lambda>i r. normalizeRow P (nowISO P i) r) 0 rows = Inr xs"
    using assms(1) by (auto simp: normalizeRows_def split: sum.splits)
  then have "c \<in> set xs"
    using assms by (auto simp: normalizeRows_def)
  from map_rows_member [OF xs this] show ?thesis by blast
qed

lemma normalizeRows_keeps_all:
  "\<exists>cs. normalizeRows P rows = Inr cs \<and> length cs = length rows"
proof -
  obtain cs where cs: "map_rows (\<lambda>i r. normalizeRow P (nowISO P i) r) 0 rows = Inr cs"
    "length cs = length rows"
    using map_rows_total [where f = "\<lambda>i r. normalizeRow P (nowISO P i) r"] normalizeRow_total
    by meson
  have "title c \<noteq> [] \<and> url c \<noteq> []" if "c \<in> set cs" for c
    using map_rows_member [OF cs(1) that] normalizeRow_kept by blast
  then have "filter (\<lambda>x. title x \<noteq> [] \<and> url x \<noteq> []) cs = cs"
    by (simp add: filter_id_conv)
  then show ?thesis using cs
    by (simp add: normalizeRows_def)
qed

lemma dedupe_single: "dedupeByIdHash [c] = [c]"
  by (simp add: dedupeByIdHash_def dedupe_step_def)

text \<open>
  Claim C2, amended. A row in which no title alias and no URL alias is filled is not
  excluded: its record has the title \<open>"(untitled)"\<close> and the default page URL, both
  non-empty, so the filter of \<open>normalizeRows\<close> keeps it, and so does \<open>dedupeByIdHash\<close>.
\<close>

theorem blank_row_retained:
  assumes "headerPick r [''Notice Title'', ''Title''] = None"
    and "headerPick r [''URL'', ''Link'', ''Notice URL''] = None"
  shows "\<exists>c. normalizeRows P [r] = Inr [c] \<and> dedupeByIdHash [c] = [c]
             \<and> title c = ''(untitled)'' \<and> url c = PAGE_URL"
proof -
  obtain c where c: "normalizeRow P (nowISO P 0) r = Inr c"
    using normalizeRow_total by blast
  have t: "title c = ''(untitled)''" and u: "url c = PAGE_URL"
    using normalizeRow_fields(1,2) [OF c] assms by (simp_all add: or_empty_def trim_def)
  have "normalizeRows P [r] = Inr [c]"
    using c t u by (simp add: normalizeRows_def PAGE_URL_nonempty)
  then show ?thesis using t u dedupe_single by blast
qed

theorem blank_row_retained_witness:
  "headerPick country_only_row [''Notice Title'', ''Title''] = None
   \<and> headerPick country_only_row [''URL'', ''Link'', ''Notice URL''] = None
   \<and> (\<exists>c. normalizeRows example_host [country_only_row] = Inr [c] \<and> dedupeByIdHash [c] = [c]
             \<and> title c = ''(untitled)'' \<and> url c = PAGE_URL)"
proof -
  have h1: "headerPick country_only_row [''Notice Title'', ''Title''] = None"
    by code_simp
  have h2: "headerPick country_only_row [''URL'', ''Link'', ''Notice URL''] = None"
    by code_simp
  show ?thesis
    using blank_row_retained [OF h1 h2, of example_host] h1 h2 by simp
qed

text \<open>
  Claim C2 as stated fails on the row that has a country only: the pipeline returns one
  record for it.
\<close>

theorem blank_row_counterexample:
  "(case pipeline example_host [country_only_row] of
      Inr [c] \<Rightarrow> title c = ''(untitled)''
                 \<and> url c = ''https://projectprocurement.iadb.org/en/procurement-notices''
    | _ \<Rightarrow> False)"
  by code_simp

text \<open>
  Claim C3 as stated fails: no keyword of \<open>inferSectors\<close> occurs in
  \<open>"bridge rehabilitation"\<close>, so the sector is \<open>["Other"]\<close>, not \<open>["Transport"]\<close>.
\<close>

theorem bridge_sector_counterexample:
  "(case pipeline example_host [bridge_row] of
      Inr [c] \<Rightarrow> sector c = [''Other''] \<and> sector c \<noteq> [''Transport'']
    | _ \<Rightarrow> False)"
  by code_simp

text \<open>
  Claim C3, amended. On every host the pipeline (\<open>normalizeRows\<close>, then
  \<open>dedupeByIdHash\<close>) turns the single row of the scenario into exactly one record, with
  title \<open>"Bridge Rehabilitation"\<close>, country \<open>"PE"\<close>, deadline \<open>"2024-03-15"\<close> and sector
  \<open>["Other"]\<close>.
\<close>

theorem bridge_scenario:
  "(case pipeline P [bridge_row] of
      Inr [c] \<Rightarrow> title c = ''Bridge Rehabilitation'' \<and> country c = Some (Str ''PE'')
                 \<and> deadline c = Some ''2024-03-15'' \<and> sector c = [''Other'']
    | _ \<Rightarrow> False)"
  by code_simp

theorem bridge_scenario_witness:
  "(case pipeline example_host [bridge_row] of
      Inr [c] \<Rightarrow> title c = ''Bridge Rehabilitation'' \<and> country c = Some (Str ''PE'')
                 \<and> deadline c = Some ''2024-03-15'' \<and> sector c = [''Other'']
    | _ \<Rightarrow> False)"
  by (rule bridge_scenario)

text \<open>
  Claim C8: the examples hold (\<open>"USD 1,200.50"\<close> gives 1200.5, \<open>null\<close> gives \<open>null\<close>), but a
  text without any digit or dot is stripped to the empty string, and \<open>Number("")\<close> is 0:
  \<open>toNum("N/A")\<close> is 0, not \<open>null\<close>.
\<close>

theorem toNum_no_digits_is_zero:
  "toNum (Some ''N/A'') = Some 0 \<and> toNum (Some ''TBD'') = Some 0
   \<and> toNum (Some ''USD 1,200.50'') = Some (2401 / 2) \<and> toNum None = None"
  by code_simp

text \<open>
  Claim C6: \<open>headerPick\<close> looks an alias up as written, in upper case and in lower
  case, and in no other casing: the header \<open>"Notice title"\<close> is not found under the alias
  \<open>"Notice Title"\<close>.
\<close>

theorem headerPick_mixed_case_missed:
  "headerPick [''Notice Title'' \<mapsto> ''Bridge''] [''Notice Title'', ''Title''] = Some ''Bridge''
   \<and> headerPick [''NOTICE TITLE'' \<mapsto> ''Bridge''] [''Notice Title'', ''Title''] = Some ''Bridge''
   \<and> headerPick [''notice title'' \<mapsto> ''Bridge''] [''Notice Title'', ''Title''] = Some ''Bridge''
   \<and> headerPick [''Notice title'' \<mapsto> ''Bridge''] [''Notice Title'', ''Title''] = None"
  by code_simp

section \<open>Properties of the orchestrator\<close>

declare attempts.simps [simp del]

lemma attempts_past: "RETRIES < a \<Longrightarrow> attempts w a rows slept = Inr (rows, slept)"
  by (subst attempts.simps) simp

lemma attempts_last:
  "attempts w RETRIES rows slept =
     (if grid_ready w RETRIES then Inr (parsed w RETRIES, slept)
      else Inl (Error ''Power BI grid not visible after waiting''))"
  by (subst attempts.simps) (simp add: attempts_past Let_def)

lemma attempts_empty:
  assumes "\<And>i. 0 < i \<Longrightarrow> i \<le> RETRIES \<Longrightarrow> grid_ready w i \<Longrightarrow> parsed w i = []"
    and "a \<le> RETRIES" and "0 < a"
  shows "\<exists>slept'. attempts w a [] slept =
           (if grid_ready w RETRIES then Inr ([], slept')
            else Inl (Error ''Power BI grid not visible after waiting''))"
  using assms(2,3)
proof (induction "RETRIES - a" arbitrary: a slept)
  case 0
  then have "a = RETRIES" by simp
  moreover have "0 < RETRIES" by (simp add: RETRIES_def)
  ultimately show ?case using assms(1) [of RETRIES] by (auto simp: attempts_last)
next
  case (Suc n)
  then have lt: "a < RETRIES" and n: "n = RETRIES - (a + 1)" and le: "a + 1 \<le> RETRIES"
    by simp_all
  have step: "attempts w a [] slept = attempts w (a + 1) [] (slept @ [1500 * int a])"
    using lt Suc.prems assms(1) [of a] by (subst attempts.simps) (simp add: Let_def)
  show ?case
    unfolding step using Suc.hyps(1) [OF n le] by simp
qed

text \<open>
  Claim C1, amended. When the embed is found and every attempt that sees the grid parses
  zero rows: if the grid is visible on the last attempt, the run writes both output files
  with an empty list of notices and exits with status 0; if it is not, the run ends with
  status 1 on the error "Power BI grid not visible after waiting". No "no data
  extracted" condition exists.
\<close>

theorem empty_extraction_outcome:
  assumes "frame_found w"
    and "\<forall>i. 0 < i \<and> i \<le> RETRIES \<and> grid_ready w i \<longrightarrow> parsed w i = []"
  shows "main P w =
           (if grid_ready w RETRIES
            then Exit0 [(''data/notices.json'', []),
                        (''data/notices-'' @ take 10 (nowISO P 0) @ ''.json'', [])]
            else Exit1 (Error ''Power BI grid not visible after waiting''))"
proof -
  obtain slept' where a: "attempts w (Suc 0) [] [] =
           (if grid_ready w RETRIES then Inr ([], slept')
            else Inl (Error ''Power BI grid not visible after waiting''))"
    using attempts_empty [of w "Suc 0" "[]"] assms(2) by (auto simp: RETRIES_def)
  have n: "normalizeRows P [] = Inr []"
    by (simp add: normalizeRows_def)
  have d: "dedupeByIdHash [] = []"
    by (simp add: dedupeByIdHash_def)
  show ?thesis
    using assms(1) by (simp add: main_def a n d)
qed

theorem empty_extraction_outcome_witness:
  "frame_found empty_grid_world
   \<and> grid_ready empty_grid_world RETRIES
   \<and> parsed empty_grid_world 1 = [] \<and> parsed empty_grid_world 2 = []
   \<and> parsed empty_grid_world 3 = []
   \<and> main example_host empty_grid_world =
       Exit0 [(''data/notices.json'', []), (''data/notices-2024-01-01.json'', [])]"
proof -
  have h1: "frame_found empty_grid_world"
    by (simp add: empty_grid_world_def)
  have h2: "\<forall>i. 0 < i \<and> i \<le> RETRIES \<and> grid_ready empty_grid_world i
                \<longrightarrow> parsed empty_grid_world i = []"
    by (simp add: empty_grid_world_def)
  have h3: "grid_ready empty_grid_world RETRIES"
    by (simp add: empty_grid_world_def)
  have h4: "parsed empty_grid_world 1 = []" "parsed empty_grid_world 2 = []"
    "parsed empty_grid_world 3 = []"
    by (simp_all add: empty_grid_world_def)
  have t: "take 10 (nowISO example_host 0) = ''2024-01-01''"
    by (simp add: example_host_def)
  show ?thesis
    using empty_extraction_outcome [OF h1 h2, of example_host] h1 h3 h4 t by simp
qed

text \<open>
  Claim C1 as stated fails: with the grid visible and no row parsed on any attempt, both
  files are written with \<open>[]\<close> and the process exits with status 0.
\<close>

theorem empty_extraction_counterexample:
  "main example_host empty_grid_world =
     Exit0 [(''data/notices.json'', []), (''data/notices-2024-01-01.json'', [])]"
  by code_simp

section \<open>Properties of the deduplicator\<close>

lemma takeWhile_sep: "c \<notin> set a \<Longrightarrow> takeWhile (\<lambda>u. u \<noteq> c) (a @ c # x) = a"
  by (induction a) auto

lemma sep_unique:
  assumes "c \<notin> set a" and "c \<notin> set b" and "a @ c # x = b @ c # y"
  shows "a = b \<and> x = y"
proof -
  have "takeWhile (\<lambda>u. u \<noteq> c) (a @ c # x) = a" "takeWhile (\<lambda>u. u \<noteq> c) (b @ c # y) = b"
    using assms(1,2) by (simp_all add: takeWhile_sep)
  then have "a = b" using assms(3) by simp
  then show ?thesis using assms(3) by simp
qed

lemma key_eq_iff:
  assumes "CHR '':'' \<notin> set (hash a)" and "CHR '':'' \<notin> set (hash b)"
  shows "dedupe_key a = dedupe_key b \<longleftrightarrow> id_hash a = id_hash b"
proof
  assume "dedupe_key a = dedupe_key b"
  then have "rev (id' a @ CHR '':'' # hash a) = rev (id' b @ CHR '':'' # hash b)"
    by (simp add: dedupe_key_def)
  then have "rev (hash a) @ CHR '':'' # rev (id' a) = rev (hash b) @ CHR '':'' # rev (id' b)"
    by simp
  then have "rev (hash a) = rev (hash b) \<and> rev (id' a) = rev (id' b)"
    by (rule sep_unique [rotated 2]) (use assms in auto)
  then show "id_hash a = id_hash b"
    by (simp add: id_hash_def)
next
  assume "id_hash a = id_hash b"
  then show "dedupe_key a = dedupe_key b"
    by (simp add: id_hash_def dedupe_key_def)
qed

lemma first_by_unseen: "n \<in> set (first_by f seen ns) \<Longrightarrow> f n \<notin> f ` set seen"
  by (induction f seen ns rule: first_by.induct) (auto split: if_splits)

lemma first_by_subset: "set (first_by f seen ns) \<subseteq> set ns"
  by (induction f seen ns rule: first_by.induct) auto

lemma first_by_cong:
  assumes "\<And>a b. a \<in> set seen \<union> set ns \<Longrightarrow> b \<in> set seen \<union> set ns \<Longrightarrow> f a = f b \<longleftrightarrow> g a = g b"
  shows "first_by f seen ns = first_by g seen ns"
  using assms
proof (induction ns arbitrary: seen)
  case Nil
  then show ?case by simp
next
  case (Cons n ns)
  have mem: "f n \<in> f ` set seen \<longleftrightarrow> g n \<in> g ` set seen"
    using Cons.prems by (auto simp: image_iff) 
  have "first_by f seen ns = first_by g seen ns"
    by (rule Cons.IH) (use Cons.prems in auto)
  moreover have "first_by f (n # seen) ns = first_by g (n # seen) ns"
    by (rule Cons.IH) (use Cons.prems in auto)
  ultimately show ?case using mem by simp
qed

lemma first_by_seen_set:
  "set s1 = set s2 \<Longrightarrow> first_by f s1 ns = first_by f s2 ns"
proof (induction ns arbitrary: s1 s2)
  case Nil
  then show ?case by simp
next
  case (Cons n ns)
  have "first_by f (n # s1) ns = first_by f (n # s2) ns"
    by (rule Cons.IH) (simp add: Cons.prems)
  moreover have "first_by f s1 ns = first_by f s2 ns"
    by (rule Cons.IH) (rule Cons.prems)
  ultimately show ?case using Cons.prems by simp
qed

lemma dedupe_loop:
  assumes "\<forall>(k, n) \<in> set m. k = dedupe_key n"
  shows "map snd (foldl dedupe_step m ns) = map snd m @ first_by dedupe_key (map snd m) ns"
  using assms
proof (induction ns arbitrary: m)
  case Nil
  then show ?case by simp
next
  case (Cons n ns)
  have keys: "fst ` set m = dedupe_key ` set (map snd m)"
    using Cons.prems by (force simp: image_iff)
  show ?case
  proof (cases "map_of m (dedupe_key n) = None")
    case True
    then have new: "dedupe_key n \<notin> dedupe_key ` set (map snd m)"
      using keys by (simp add: map_of_eq_None_iff)
    have inv: "\<forall>(k, x) \<in> set (m @ [(dedupe_key n, n)]). k = dedupe_key x"
      using Cons.prems by auto
    have "first_by dedupe_key (map snd m @ [n]) ns = first_by dedupe_key (n # map snd m) ns"
      by (rule first_by_seen_set) auto
    moreover have "dedupe_step m n = m @ [(dedupe_key n, n)]"
      using True by (simp add: dedupe_step_def)
    ultimately show ?thesis
      using new Cons.IH [OF inv] by simp
  next
    case False
    then have old: "dedupe_key n \<in> dedupe_key ` set (map snd m)"
      using keys by (simp add: map_of_eq_None_iff)
    have "dedupe_step m n = m"
      using False by (simp add: dedupe_step_def)
    then show ?thesis
      using old Cons.IH [OF Cons.prems] by simp
  qed
qed

lemma dedupe_first_by:
  assumes "\<forall>n \<in> set arr. CHR '':'' \<notin> set (hash n)"
  shows "dedupeByIdHash arr = first_by id_hash [] arr"
proof -
  have "dedupeByIdHash arr = first_by dedupe_key [] arr"
    using dedupe_loop [of "[]" arr] by (simp add: dedupeByIdHash_def)
  also have "\<dots> = first_by id_hash [] arr"
    by (rule first_by_cong) (use assms key_eq_iff in auto)
  finally show ?thesis .
qed

lemma first_seen_order_Cons:
  "rev (remdups (rev (x # xs))) = x # filter (\<lambda>y. y \<noteq> x) (rev (remdups (rev xs)))"
proof -
  have "remdups (ys @ [x]) = remdups (filter (\<lambda>y. y \<noteq> x) ys) @ [x]" for ys
    by (induction ys) auto
  from this [of "rev xs"] show ?thesis
    by (simp add: remdups_filter rev_filter)
qed

lemma first_by_keys:
  "map f (first_by f seen ns) =
     filter (\<lambda>k. k \<notin> f ` set seen) (rev (remdups (rev (map f ns))))"
proof (induction ns arbitrary: seen)
  case Nil
  then show ?case by simp
next
  case (Cons n ns)
  show ?case
  proof (cases "f n \<in> f ` set seen")
    case True
    have "filter (\<lambda>k. k \<notin> f ` set seen) (filter (\<lambda>y. y \<noteq> f n) (rev (remdups (rev (map f ns)))))
          = filter (\<lambda>k. k \<notin> f ` set seen) (rev (remdups (rev (map f ns))))"
      unfolding filter_filter by (rule filter_cong) (use True in auto)
    then show ?thesis
      using True Cons.IH [of seen] by (simp add: first_seen_order_Cons del: rev.simps)
  next
    case False
    have "filter (\<lambda>k. k \<notin> f ` set (n # seen)) (rev (remdups (rev (map f ns))))
          = filter (\<lambda>k. k \<notin> f ` set seen) (filter (\<lambda>y. y \<noteq> f n) (rev (remdups (rev (map f ns)))))"
      unfolding filter_filter by (rule filter_cong) auto
    then show ?thesis
      using False Cons.IH [of "n # seen"] by (simp add: first_seen_order_Cons del: rev.simps)
  qed
qed

lemma first_by_find:
  "n \<in> set (first_by f seen ns) \<Longrightarrow> find (\<lambda>x. f x = f n) ns = Some n"
proof (induction ns arbitrary: seen)
  case Nil
  then show ?case by simp
next
  case (Cons m ns)
  show ?case
  proof (cases "f m \<in> f ` set seen")
    case True
    then have n: "n \<in> set (first_by f seen ns)" using Cons.prems by simp
    then have "f n \<notin> f ` set seen" by (rule first_by_unseen)
    then have "f m \<noteq> f n" using True by auto
    then show ?thesis using Cons.IH [OF n] by simp
  next
    case False
    then consider "n = m" | "n \<in> set (first_by f (m # seen) ns)"
      using Cons.prems by auto
    then show ?thesis
    proof cases
      case 1
      then show ?thesis by simp
    next
      case 2
      then have "f n \<notin> f ` set (m # seen)" by (rule first_by_unseen)
      then have "f m \<noteq> f n" by auto
      then show ?thesis using Cons.IH [OF 2] by simp
    qed
  qed
qed

text \<open>
  Claim C5. For every sequence of records whose hashes hold no colon (a SHA-256 hex digest
  holds none), the pairs \<open>(id, hash)\<close> of the output of \<open>dedupeByIdHash\<close> are the distinct
  pairs of the input in the order of their first occurrence, one entry each; every entry
  of the output is the first record of the input with its pair; and of three records, two
  with one pair and a third with the same id and another hash, the first and the third
  are returned, in that order.
\<close>

theorem dedupe_first_occurrences:
  assumes "list_all (\<lambda>n. CHR '':'' \<notin> set (hash n)) arr"
  shows "map id_hash (dedupeByIdHash arr) = rev (remdups (rev (map id_hash arr)))
       \<and> distinct (map id_hash (dedupeByIdHash arr))
       \<and> set (map id_hash (dedupeByIdHash arr)) = set (map id_hash arr)
       \<and> list_all (\<lambda>n. find (\<lambda>x. id_hash x = id_hash n) arr = Some n) (dedupeByIdHash arr)
       \<and> (arr = [a, b, c] \<and> id_hash a = id_hash b \<and> id' c = id' a \<and> hash c \<noteq> hash a
            \<longrightarrow> dedupeByIdHash arr = [a, c])"
proof -
  have "\<forall>n \<in> set arr. CHR '':'' \<notin> set (hash n)"
    using assms by (simp add: list_all_iff)
  note d = dedupe_first_by [OF this]
  have keys: "map id_hash (dedupeByIdHash arr) = rev (remdups (rev (map id_hash arr)))"
    unfolding d by (simp add: first_by_keys)
  have dist: "distinct (map id_hash (dedupeByIdHash arr))"
    unfolding keys by simp
  have all: "set (map id_hash (dedupeByIdHash arr)) = set (map id_hash arr)"
    unfolding keys by simp
  have first: "list_all (\<lambda>n. find (\<lambda>x. id_hash x = id_hash n) arr = Some n) (dedupeByIdHash arr)"
    unfolding d list_all_iff
  proof (intro ballI)
    fix n
    assume "n \<in> set (first_by id_hash [] arr)"
    then show "find (\<lambda>x. id_hash x = id_hash n) arr = Some n"
      by (rule first_by_find)
  qed
  have three: "dedupeByIdHash arr = [a, c]"
    if "arr = [a, b, c]" "id_hash a = id_hash b" "id' c = id' a" "hash c \<noteq> hash a"
    unfolding d using that by (auto simp: id_hash_def)
  show ?thesis
    using keys dist all first three by blast
qed

theorem dedupe_first_occurrences_witness:
  "list_all (\<lambda>n. CHR '':'' \<notin> set (hash n))
     [sample_notice ''IDB:a'' ''01'', sample_notice ''IDB:a'' ''01'', sample_notice ''IDB:a'' ''02'']
   \<and> dedupeByIdHash
        [sample_notice ''IDB:a'' ''01'', sample_notice ''IDB:a'' ''01'', sample_notice ''IDB:a'' ''02'']
       = [sample_notice ''IDB:a'' ''01'', sample_notice ''IDB:a'' ''02'']"
proof -
  let ?a = "sample_notice ''IDB:a'' ''01''" and ?c = "sample_notice ''IDB:a'' ''02''"
  have h: "list_all (\<lambda>n. CHR '':'' \<notin> set (hash n)) [?a, ?a, ?c]"
    by (simp add: sample_notice_def)
  have e: "id_hash ?a = id_hash ?a \<and> id' ?c = id' ?a \<and> hash ?c \<noteq> hash ?a"
    by (simp add: sample_notice_def)
  show ?thesis
    using dedupe_first_occurrences [OF h, of ?a ?a ?c] h e by simp
qed

text \<open>
  Without the condition on the hashes the key text \<open>id:hash\<close> does not tell the pair: two
  records with different pairs and one key collapse into one entry.
\<close>

lemma dedupe_key_ambiguous:
  "id_hash (sample_notice ''IDB:a'' ''b:c'') \<noteq> id_hash (sample_notice ''IDB:a:b'' ''c'')
   \<and> dedupeByIdHash [sample_notice ''IDB:a'' ''b:c'', sample_notice ''IDB:a:b'' ''c'']
       = [sample_notice ''IDB:a'' ''b:c'']"
  by (simp add: dedupeByIdHash_def dedupe_step_def dedupe_key_def id_hash_def sample_notice_def)

section \<open>Properties of the hash\<close>

lemma join4_inj:
  assumes "CHR ''|'' \<notin> set a" "CHR ''|'' \<notin> set a'" "CHR ''|'' \<notin> set b" "CHR ''|'' \<notin> set b'"
    and "CHR ''|'' \<notin> set d" "CHR ''|'' \<notin> set d'"
    and "join4 a b c d = join4 a' b' c' d'"
  shows "a = a' \<and> b = b' \<and> c = c' \<and> d = d'"
proof -
  have 1: "a @ CHR ''|'' # (b @ CHR ''|'' # (c @ CHR ''|'' # d))
         = a' @ CHR ''|'' # (b' @ CHR ''|'' # (c' @ CHR ''|'' # d'))"
    using assms(7) by (simp add: join4_def)
  have a: "a = a'" and 2: "b @ CHR ''|'' # (c @ CHR ''|'' # d) = b' @ CHR ''|'' # (c' @ CHR ''|'' # d')"
    using sep_unique [OF assms(1,2) 1] by simp_all
  have b: "b = b'" and 3: "c @ CHR ''|'' # d = c' @ CHR ''|'' # d'"
    using sep_unique [OF assms(3,4) 2] by simp_all
  have "rev (c @ CHR ''|'' # d) = rev (c' @ CHR ''|'' # d')"
    using 3 by simp
  then have "rev d @ CHR ''|'' # rev c = rev d' @ CHR ''|'' # rev c'"
    by simp
  then have "rev d = rev d' \<and> rev c = rev c'"
    by (rule sep_unique [rotated 2]) (use assms(5,6) in auto)
  then show ?thesis using a b by simp
qed

lemma or_empty_inj:
  assumes "x \<noteq> Some []" and "y \<noteq> Some []" and "or_empty x = or_empty y"
  shows "x = y"
  using assms by (cases x; cases y) (auto simp: or_empty_def)

lemma normalizeRow_nonblank:
  assumes "normalizeRow P now r = Inr c"
  shows "countryName c \<noteq> Some []" and "deadline c \<noteq> Some []"
  using normalizeRow_fields(3,4) [OF assms] or_null_not_empty toISO_nonempty [of P _ "[]"]
  by auto

lemma single_caseE:
  assumes "case x of Inl e \<Rightarrow> False | Inr [] \<Rightarrow> False | Inr [c] \<Rightarrow> Q c | Inr (c # d # ds) \<Rightarrow> False"
  obtains c where "x = Inr [c]" and "Q c"
  using assms by (cases x) (auto split: list.splits)

text \<open>
  Claim C4, amended. With a digest free of collisions, two records that \<open>normalizeRows\<close>
  produced have equal hashes whenever their title, countryName, deadline and url are
  equal, and exactly when the texts joined with \<open>|\<close> are equal; when no title,
  countryName or url of the two holds a \<open>|\<close>, their hashes are equal if and only if the
  four fields are.
\<close>

theorem hash_follows_fields:
  assumes "inj (sha256 P)"
    and "normalizeRows P rows1 = Inr cs1" and "a \<in> set cs1"
    and "normalizeRows P rows2 = Inr cs2" and "b \<in> set cs2"
  shows "(title a = title b \<and> countryName a = countryName b \<and> deadline a = deadline b
            \<and> url a = url b \<longrightarrow> hash a = hash b)
       \<and> (hash a = hash b \<longleftrightarrow>
            join4 (title a) (or_empty (countryName a)) (or_empty (deadline a)) (url a)
            = join4 (title b) (or_empty (countryName b)) (or_empty (deadline b)) (url b))
       \<and> (pipe_free a \<and> pipe_free b \<longrightarrow>
            (hash a = hash b \<longleftrightarrow>
               title a = title b \<and> countryName a = countryName b \<and> deadline a = deadline b
               \<and> url a = url b))"
proof -
  from normalizeRows_member [OF assms(2,3)]
  obtain now1 where "\<exists>r. normalizeRow P now1 r = Inr a" ..
  then obtain r1 where ra: "normalizeRow P now1 r1 = Inr a" ..
  from normalizeRows_member [OF assms(4,5)]
  obtain now2 where "\<exists>r. normalizeRow P now2 r = Inr b" ..
  then obtain r2 where rb: "normalizeRow P now2 r2 = Inr b" ..
  let ?ja = "join4 (title a) (or_empty (countryName a)) (or_empty (deadline a)) (url a)"
  let ?jb = "join4 (title b) (or_empty (countryName b)) (or_empty (deadline b)) (url b)"
  have ha: "hash a = sha256 P ?ja" and hb: "hash b = sha256 P ?jb"
    using normalizeRow_fields(5) [OF ra] normalizeRow_fields(5) [OF rb] by simp_all
  have iff: "hash a = hash b \<longleftrightarrow> ?ja = ?jb"
    by (simp only: ha hb inj_eq [OF assms(1)])
  have same: "hash a = hash b"
    if "title a = title b" "countryName a = countryName b" "deadline a = deadline b"
      "url a = url b"
    by (simp only: ha hb that)
  have fields: "title a = title b \<and> countryName a = countryName b \<and> deadline a = deadline b
               \<and> url a = url b"
    if pf: "pipe_free a" "pipe_free b" and eq: "hash a = hash b"
  proof -
    have j: "?ja = ?jb" using eq iff by simp
    have "title a = title b \<and> or_empty (countryName a) = or_empty (countryName b)
          \<and> or_empty (deadline a) = or_empty (deadline b) \<and> url a = url b"
      by (rule join4_inj [OF _ _ _ _ _ _ j]) (use pf in \<open>simp_all add: pipe_free_def\<close>)
    then have t: "title a = title b" and c: "or_empty (countryName a) = or_empty (countryName b)"
      and d: "or_empty (deadline a) = or_empty (deadline b)" and u: "url a = url b"
      by simp_all
    have "countryName a = countryName b"
      by (rule or_empty_inj [OF normalizeRow_nonblank(1) [OF ra] normalizeRow_nonblank(1) [OF rb] c])
    moreover have "deadline a = deadline b"
      by (rule or_empty_inj [OF normalizeRow_nonblank(2) [OF ra] normalizeRow_nonblank(2) [OF rb] d])
    ultimately show ?thesis using t u by simp
  qed
  show ?thesis
  proof (intro conjI impI)
    assume "title a = title b \<and> countryName a = countryName b \<and> deadline a = deadline b
            \<and> url a = url b"
    then show "hash a = hash b" using same by simp
  next
    show "hash a = hash b \<longleftrightarrow> ?ja = ?jb" by (rule iff)
  next
    assume pf: "pipe_free a \<and> pipe_free b"
    show "hash a = hash b \<longleftrightarrow>
            title a = title b \<and> countryName a = countryName b \<and> deadline a = deadline b
            \<and> url a = url b"
    proof
      assume "hash a = hash b"
      then show "title a = title b \<and> countryName a = countryName b \<and> deadline a = deadline b
            \<and> url a = url b"
        using fields pf by simp
    next
      assume "title a = title b \<and> countryName a = countryName b \<and> deadline a = deadline b
            \<and> url a = url b"
      then show "hash a = hash b" using same by simp
    qed
  qed
qed

lemma example_host_inj: "inj (sha256 example_host)"
  by (simp add: example_host_def inj_def)

theorem hash_follows_fields_witness:
  "inj (sha256 example_host)
   \<and> (\<exists>a b. normalizeRows example_host [bridge_row] = Inr [a] \<and> a \<in> set [a]
          \<and> normalizeRows example_host [country_only_row] = Inr [b] \<and> b \<in> set [b]
          \<and> pipe_free a \<and> pipe_free b \<and> title a \<noteq> title b \<and> hash a \<noteq> hash b)"
proof -
  have "case normalizeRows example_host [bridge_row] of
          Inr [c] \<Rightarrow> pipe_free c \<and> title c = ''Bridge Rehabilitation'' | _ \<Rightarrow> False"
    by code_simp
  then obtain a where a: "normalizeRows example_host [bridge_row] = Inr [a]"
    and pa: "pipe_free a \<and> title a = ''Bridge Rehabilitation''"
    by (rule single_caseE)
  have "case normalizeRows example_host [country_only_row] of
          Inr [c] \<Rightarrow> pipe_free c \<and> title c = ''(untitled)'' | _ \<Rightarrow> False"
    by code_simp
  then obtain b where b: "normalizeRows example_host [country_only_row] = Inr [b]"
    and pb: "pipe_free b \<and> title b = ''(untitled)''"
    by (rule single_caseE)
  have ma: "a \<in> set [a]" and mb: "b \<in> set [b]"
    by simp_all
  have t: "title a \<noteq> title b"
    using pa pb by simp
  have "hash a \<noteq> hash b"
    using hash_follows_fields [OF example_host_inj a ma b mb] pa pb t by blast
  then have "normalizeRows example_host [bridge_row] = Inr [a] \<and> a \<in> set [a]
          \<and> normalizeRows example_host [country_only_row] = Inr [b] \<and> b \<in> set [b]
          \<and> pipe_free a \<and> pipe_free b \<and> title a \<noteq> title b \<and> hash a \<noteq> hash b"
    using a b ma mb pa pb t by simp
  then have "\<exists>a b. normalizeRows example_host [bridge_row] = Inr [a] \<and> a \<in> set [a]
          \<and> normalizeRows example_host [country_only_row] = Inr [b] \<and> b \<in> set [b]
          \<and> pipe_free a \<and> pipe_free b \<and> title a \<noteq> title b \<and> hash a \<noteq> hash b"
    by (intro exI)
  then show ?thesis
    using example_host_inj by (rule conjI [rotated])
qed

text \<open>
  Claim C4 as stated fails: the title \<open>"Road|Lima"\<close> without a country and the title
  \<open>"Road"\<close> with the country \<open>"Lima|"\<close> join to the same text, so the hashes are equal
  although title and countryName differ, whatever the digest.
\<close>

theorem hash_collision_counterexample:
  "inj (sha256 example_host)
   \<and> (case (normalizeRows example_host [piped_title_row],
             normalizeRows example_host [piped_country_row]) of
        (Inr [a], Inr [b]) \<Rightarrow>
          hash a = hash b \<and> title a \<noteq> title b \<and> countryName a \<noteq> countryName b
      | _ \<Rightarrow> False)"
proof (rule conjI)
  show "inj (sha256 example_host)"
    by (rule example_host_inj)
  show "case (normalizeRows example_host [piped_title_row],
             normalizeRows example_host [piped_country_row]) of
        (Inr [a], Inr [b]) \<Rightarrow>
          hash a = hash b \<and> title a \<noteq> title b \<and> countryName a \<noteq> countryName b
      | _ \<Rightarrow> False"
    by code_simp
qed

end
